theory Spec2Isabelle
  imports Main "HOL-Library.Word"
begin

unbundle bit_operations_syntax

section \<open>Machine types and compile-time constants\<close>

text \<open>
  The driver is built for a 64-bit kernel (LP64): \<open>size_t\<close> is an unsigned 64-bit
  integer, \<open>loff_t\<close> (long long) and \<open>ssize_t\<close> are signed 64-bit integers. All
  three are \<open>64 word\<close>; \<open>uint\<close>/\<open>unat\<close> read the unsigned value, \<open>sint\<close> the
  two's complement one. \<open>\<le>\<close>, \<open><\<close> and \<open>min\<close> on words are the unsigned order,
  which is the order C uses for \<open>size_t\<close>.
\<close>

type_synonym byte = "8 word"
type_synonym size_t = "64 word"
type_synonym loff_t = "64 word"
type_synonym ssize_t = "64 word"

definition BUFSIZE :: nat where
  "BUFSIZE = 512"

definition NUM_MINORS :: nat where
  "NUM_MINORS = 1"

definition FIRST_MINOR :: nat where
  "FIRST_MINOR = 1"

definition NAME :: string where
  "NAME = ''s_driver''"

definition MESSAGE :: string where
  "MESSAGE = ''Hello World'' @ [CHR 0x0A]"

text \<open>\<open>EFAULT\<close> of \<open>linux/errno.h\<close>.\<close>

definition EFAULT :: ssize_t where
  "EFAULT = 14"

text \<open>
  The array object of a C string literal: its characters followed by the terminating
  null byte, so \<open>sizeof(MESSAGE)\<close> is \<open>length (literal_bytes MESSAGE)\<close>.
\<close>

definition literal_bytes :: "string \<Rightarrow> byte list" where
  "literal_bytes s = map (\<lambda>c. of_nat (of_char c)) s @ [0]"

section \<open>Data model\<close>

text \<open>
  Modelled from the spec: \<open>struct cdev\<close> and the functions \<open>cdev_init\<close> and
  \<open>cdev_add\<close> belong to the kernel, not to the source. Section 4.1 of the
  specification describes them as binding the operation table and publishing the device
  under a device number; the record keeps just that.
\<close>

record cdev =
  ops_bound :: bool
  dev :: "(int \<times> nat) option"
  count :: nat

text \<open>
  \<open>struct s_driver_dev_data\<close>. The field \<open>size\<close> is called \<open>sizef\<close> here,
  as \<open>size\<close> is a constant of HOL. A well-formed device has a buffer of exactly
  \<open>BUFSIZE\<close> bytes.
\<close>

record s_driver_dev_data =
  cdev :: cdev
  buffer :: "byte list"
  sizef :: size_t

text \<open>
  Pointers into the global array \<open>devs\<close> are indices: \<open>inode->i_cdev\<close> points at
  \<open>devs[i].cdev\<close>, \<open>file->private_data\<close> at \<open>devs[i]\<close>.
\<close>

record inode =
  i_cdev :: nat

record file_t =
  private_data :: nat

text \<open>
  The module's globals together with the part of the kernel the driver acts on:
  \<^item> \<open>devs\<close> and \<open>major\<close> are the two globals of the source;
  \<^item> \<open>nearby\<close> holds the bytes of memory around a device's \<open>buffer\<close> that are not
    part of \<open>buffer\<close> or \<open>size\<close> (the \<open>cdev\<close> in front of the array, whatever
    the image has behind the struct), addressed by the device's index and the byte
    displacement from \<open>buffer[0]\<close>;
  \<^item> \<open>klog\<close> is the kernel log written by \<open>printk\<close> (the format strings, in
    order; their arguments are not rendered).
\<close>

record kstate =
  devs :: "s_driver_dev_data list"
  major :: int
  nearby :: "nat \<Rightarrow> int \<Rightarrow> byte"
  klog :: "string list"

definition printk :: "kstate \<Rightarrow> string \<Rightarrow> kstate" where
  "printk st msg = st\<lparr>klog := klog st @ [msg]\<rparr>"

section \<open>Raw memory behind \<open>data->buffer\<close>\<close>

text \<open>
  \<open>s_read\<close> and \<open>s_write\<close> hand the pointer \<open>data->buffer + *offset\<close> to the
  user-copy primitives. C performs no bounds check on that pointer, so the model has to
  say which byte it designates for every displacement \<open>k\<close>. The struct declares
  \<open>char buffer[BUFSIZE]\<close> directly followed by \<open>size_t size\<close>. The array starts
  where \<open>struct cdev\<close> ends, at a multiple of the pointer alignment, and 512 is a
  multiple of the alignment of \<open>size_t\<close>, so there is no padding between the two and

  \<^item> displacements \<open>0 .. 511\<close> are \<open>buffer[k]\<close>,
  \<^item> displacements \<open>512 .. 519\<close> are the eight bytes of \<open>size\<close> (least significant
    byte first, as on x86-64),
  \<^item> every other displacement is memory outside these two fields (\<open>nearby\<close>).
\<close>

definition size_bytes :: "size_t \<Rightarrow> byte list" where
  "size_bytes w = map (\<lambda>j. ucast (drop_bit (8 * j) w)) [0..<8]"

definition bytes_size :: "byte list \<Rightarrow> size_t" where
  "bytes_size bs = foldr (\<lambda>b acc. ucast b OR push_bit 8 acc) bs 0"

definition raw_byte :: "kstate \<Rightarrow> nat \<Rightarrow> int \<Rightarrow> byte" where
  "raw_byte st i k =
     (let d = devs st ! i in
      if 0 \<le> k \<and> k < int BUFSIZE then buffer d ! nat k
      else if int BUFSIZE \<le> k \<and> k < int BUFSIZE + 8
        then size_bytes (sizef d) ! nat (k - int BUFSIZE)
      else nearby st i k)"

definition raw_load :: "kstate \<Rightarrow> nat \<Rightarrow> int \<Rightarrow> nat \<Rightarrow> byte list" where
  "raw_load st i p n = map (\<lambda>j. raw_byte st i (p + int j)) [0..<n]"

text \<open>
  \<open>overlay p bs k old\<close> is the byte at displacement \<open>k\<close> after \<open>bs\<close> has been
  stored from displacement \<open>p\<close> on, where \<open>old\<close> was there before.
\<close>

definition overlay :: "int \<Rightarrow> byte list \<Rightarrow> int \<Rightarrow> byte \<Rightarrow> byte" where
  "overlay p bs k old =
     (if p \<le> k \<and> k < p + int (length bs) then bs ! nat (k - p) else old)"

definition raw_store :: "kstate \<Rightarrow> nat \<Rightarrow> int \<Rightarrow> byte list \<Rightarrow> kstate" where
  "raw_store st i p bs =
     (let d = devs st ! i;
          buf' = map (\<lambda>k. overlay p bs (int k) (buffer d ! k)) [0..<BUFSIZE];
          sz' = bytes_size
                  (map (\<lambda>k. overlay p bs (int BUFSIZE + int k) (size_bytes (sizef d) ! k))
                     [0..<8]);
          nb' = (\<lambda>i' k. if i' = i \<and> (k < 0 \<or> int BUFSIZE + 8 \<le> k)
                          then overlay p bs k (nearby st i' k) else nearby st i' k)
      in st\<lparr>devs := (devs st)[i := d\<lparr>buffer := buf', sizef := sz'\<rparr>], nearby := nb'\<rparr>)"

section \<open>User memory\<close>

text \<open>
  A user-space region as the caller passes it: \<open>None\<close> is a pointer the kernel cannot
  access, \<open>Some bs\<close> an accessible region that holds the bytes \<open>bs\<close>.

  Modelled from the spec: \<open>copy_to_user\<close> and \<open>copy_from_user\<close> are primitives of
  the kernel, not part of the source. Sections 7 and 9 of the specification describe them
  as validating the user region before the transfer, reporting a fault instead of
  trapping, and as all-or-nothing: a copy that cannot complete transfers nothing. As in
  the kernel, the result is the number of bytes that were not copied, \<open>0\<close> on success.
\<close>

type_synonym uregion = "byte list option"

definition user_ok :: "uregion \<Rightarrow> nat \<Rightarrow> bool" where
  "user_ok u n = (case u of None \<Rightarrow> False | Some bs \<Rightarrow> n \<le> length bs)"

definition copy_to_user :: "uregion \<Rightarrow> kstate \<Rightarrow> nat \<Rightarrow> int \<Rightarrow> nat \<Rightarrow> nat \<times> uregion" where
  "copy_to_user u st i p n =
     (if user_ok u n then (0, Some (raw_load st i p n @ drop n (the u))) else (n, u))"

definition copy_from_user :: "kstate \<Rightarrow> nat \<Rightarrow> int \<Rightarrow> uregion \<Rightarrow> nat \<Rightarrow> nat \<times> kstate" where
  "copy_from_user st i p u n =
     (if user_ok u n then (0, raw_store st i p (take n (the u))) else (n, st))"

section \<open>File operations\<close>

definition s_open :: "kstate \<Rightarrow> inode \<Rightarrow> file_t \<Rightarrow> int \<times> kstate \<times> file_t" where
  "s_open st inode filp =
     (let data = i_cdev inode;
          filp' = filp\<lparr>private_data := data\<rparr>;
          st' = printk st (''Device opened'' @ [CHR 0x0A])
      in (0, st', filp'))"

definition s_release :: "kstate \<Rightarrow> inode \<Rightarrow> file_t \<Rightarrow> int \<times> kstate" where
  "s_release st inode filp = (0, printk st (''All device's closed'' @ [CHR 0x0A]))"

text \<open>
  What a call of \<open>s_read\<close> or \<open>s_write\<close> leaves behind: the value returned, the
  caller's cursor \<open>*offset\<close>, the kernel state, the user region, and the range of
  displacements from \<open>buffer[0]\<close> that was transferred (start and byte count; \<open>None\<close>
  when nothing was transferred).
\<close>

record rw_result =
  ret :: ssize_t
  f_pos :: loff_t
  kst :: kstate
  uout :: uregion
  xfer :: "(int \<times> nat) option"

text \<open>
  How the C of \<open>s_read\<close> and \<open>s_write\<close> is read:
  \<^item> \<open>data->size - *offset\<close> has a \<open>size_t\<close> and a \<open>loff_t\<close> operand, both 64
    bits wide, so the usual arithmetic conversions carry the subtraction out in the
    unsigned 64-bit type; the cast to \<open>size_t\<close> changes nothing. It is the word
    subtraction, which wraps around.
  \<^item> \<open>min\<close> and \<open>len <= 0\<close> compare unsigned values.
  \<^item> \<open>data->buffer + *offset\<close> is pointer arithmetic with the signed offset: the
    displacement \<open>sint offset\<close> from \<open>buffer[0]\<close>.
  \<^item> A non-zero result of the user copy makes the call return \<open>-EFAULT\<close> before the
    offset is touched and before \<open>printk\<close>.
  \<^item> \<open>*offset += len\<close> is the 64-bit addition; \<open>return len\<close> converts to
    \<open>ssize_t\<close> keeping the bits.
\<close>

definition s_read :: "kstate \<Rightarrow> file_t \<Rightarrow> uregion \<Rightarrow> size_t \<Rightarrow> loff_t \<Rightarrow> rw_result" where
  "s_read st filp ubuf sz offset =
     (let i = private_data filp;
          data = devs st ! i;
          len = min (sizef data - offset) sz
      in if len \<le> 0
         then \<lparr>ret = 0, f_pos = offset, kst = st, uout = ubuf, xfer = None\<rparr>
         else (case copy_to_user ubuf st i (sint offset) (unat len) of
                 (r, ubuf') \<Rightarrow>
                   if r \<noteq> 0
                   then \<lparr>ret = - EFAULT, f_pos = offset, kst = st, uout = ubuf', xfer = None\<rparr>
                   else \<lparr>ret = len, f_pos = offset + len,
                         kst = printk st (''Device read'' @ [CHR 0x0A]), uout = ubuf',
                         xfer = Some (sint offset, unat len)\<rparr>))"

definition s_write :: "kstate \<Rightarrow> file_t \<Rightarrow> uregion \<Rightarrow> size_t \<Rightarrow> loff_t \<Rightarrow> rw_result" where
  "s_write st filp ubuf sz offset =
     (let i = private_data filp;
          data = devs st ! i;
          len = min (sizef data - offset) sz
      in if len \<le> 0
         then \<lparr>ret = 0, f_pos = offset, kst = st, uout = ubuf, xfer = None\<rparr>
         else (case copy_from_user st i (sint offset) ubuf (unat len) of
                 (r, st') \<Rightarrow>
                   if r \<noteq> 0
                   then \<lparr>ret = - EFAULT, f_pos = offset, kst = st', uout = ubuf, xfer = None\<rparr>
                   else \<lparr>ret = len, f_pos = offset + len,
                         kst = printk st' (''Device written'' @ [CHR 0x0A]), uout = ubuf,
                         xfer = Some (sint offset, unat len)\<rparr>))"

section \<open>Module load\<close>

text \<open>
  \<open>alloc_chrdev_region\<close> is the kernel's; its outcome is a parameter of \<open>init_func\<close>:
  \<open>None\<close> when the registration fails (a negative return), \<open>Some m\<close> when it assigns
  the major number \<open>m\<close>.
\<close>

definition memcpy :: "byte list \<Rightarrow> byte list \<Rightarrow> nat \<Rightarrow> byte list" where
  "memcpy dst src n = take n src @ drop n dst"

definition init_dev :: "nat \<Rightarrow> kstate \<Rightarrow> kstate" where
  "init_dev i st =
     (let st1 = printk st (''Create device using mknod /dev/%s%d c %d %d'' @ [CHR 0x0A]);
          d = devs st1 ! i;
          d1 = d\<lparr>buffer := memcpy (buffer d) (literal_bytes MESSAGE)
                              (length (literal_bytes MESSAGE))\<rparr>;
          d2 = d1\<lparr>sizef := of_nat BUFSIZE\<rparr>;
          d3 = d2\<lparr>cdev := (cdev d2)\<lparr>ops_bound := True\<rparr>\<rparr>;
          d4 = d3\<lparr>cdev := (cdev d3)\<lparr>dev := Some (major st1, i), count := 1\<rparr>\<rparr>
      in st1\<lparr>devs := (devs st1)[i := d4]\<rparr>)"

definition init_func :: "int option \<Rightarrow> kstate \<Rightarrow> int \<times> kstate" where
  "init_func alloc st =
     (case alloc of
        None \<Rightarrow> (1, printk st (''Registration failed'' @ [CHR 0x0A]))
      | Some m \<Rightarrow>
          (let st1 = st\<lparr>major := m\<rparr>;
               st2 = fold init_dev [0..<NUM_MINORS] st1
           in (0, printk st2 (''Module successfuly initialized'' @ [CHR 0x0A]))))"

text \<open>
  The globals before the module is loaded. Objects of static storage duration start
  zeroed; the neighbouring bytes are taken as zero in this image.
\<close>

definition boot :: kstate where
  "boot = \<lparr>devs = replicate NUM_MINORS
                    \<lparr>cdev = \<lparr>ops_bound = False, dev = None, count = 0\<rparr>,
                     buffer = replicate BUFSIZE 0, sizef = 0\<rparr>,
            major = 0, nearby = (\<lambda>i k. 0), klog = []\<rparr>"

section \<open>The specification's effective length\<close>

text \<open>
  Sections 4.4 and 4.5 of the specification word the length of a transfer as
  \<open>min(requested_length, device.size - offset)\<close>, a number that is zero or negative
  when the offset is at or beyond \<open>size\<close>. This is that formula over the integers,
  with the offset read as the signed \<open>loff_t\<close> it is. The code's own computation is the
  \<open>len\<close> of \<open>s_read\<close> and \<open>s_write\<close>.
\<close>

definition effective_length :: "size_t \<Rightarrow> size_t \<Rightarrow> loff_t \<Rightarrow> int" where
  "effective_length dev_size requested offset =
     min (uint requested) (uint dev_size - sint offset)"

section \<open>A loaded module, for concrete evaluation\<close>

text \<open>
  The state after \<open>init_func\<close> has run on the zeroed globals with the major number
  240, and a handle opened on the one device.
\<close>

definition loaded :: kstate where
  "loaded = snd (init_func (Some 240) boot)"

definition fd0 :: file_t where
  "fd0 = snd (snd (s_open loaded \<lparr>i_cdev = 0\<rparr> \<lparr>private_data = 0\<rparr>))"

text \<open>
  Two states that a single accepted write at offset 513 leads to from there: in
  \<open>shrunk\<close> the bytes \<open>01 00 00 00 00 00 00\<close> were written, in \<open>grown\<close> seven
  bytes \<open>FF\<close>.
\<close>

definition shrunk :: kstate where
  "shrunk = kst (s_write loaded fd0 (Some [1, 0, 0, 0, 0, 0, 0]) 7 513)"

definition grown :: kstate where
  "grown = kst (s_write loaded fd0 (Some (replicate 7 255)) 7 513)"

section \<open>Arithmetic of the length computation\<close>

lemma sint_nonneg_uint: "0 \<le> sint (w :: 64 word) \<Longrightarrow> sint w = uint w"
  using sint_lt [of w] by (simp add: uint_sint take_bit_int_eq_self)

lemma sint_small:
  fixes w :: "64 word"
  assumes "uint w < 2 ^ 63"
  shows "sint w = uint w"
proof -
  have "- (2 ^ 63) \<le> uint w" by (rule order_trans [of _ 0]) simp_all
  then have "signed_take_bit 63 (uint w) = uint w"
    using assms by (rule signed_take_bit_int_eq_self)
  then show ?thesis by (simp add: sint_uint)
qed

lemma uint_min_word: "uint (min (a :: 64 word) b) = min (uint a) (uint b)"
  by (simp add: min_def word_le_def)

lemma len_in_range:
  fixes sizew off sz :: "64 word"
  assumes "0 \<le> sint off" "sint off \<le> uint sizew"
  shows "uint (min (sizew - off) sz) = effective_length sizew sz off"
proof -
  have e: "sint off = uint off" using assms(1) by (rule sint_nonneg_uint)
  then have "uint off \<le> uint sizew" using assms(2) by simp
  then have "uint (sizew - off) = uint sizew - uint off"
    by (simp add: uint_sub_lem)
  then show ?thesis by (simp add: uint_min_word e min.commute effective_length_def)
qed

lemma s_read_ok:
  assumes "min (sizef (devs st ! private_data filp) - offset) sz = len" "len \<noteq> 0"
    "user_ok ubuf (unat len)"
  shows "s_read st filp ubuf sz offset =
     \<lparr>ret = len, f_pos = offset + len, kst = printk st (''Device read'' @ [CHR 0x0A]),
      uout = Some (raw_load st (private_data filp) (sint offset) (unat len) @ drop (unat len) (the ubuf)),
      xfer = Some (sint offset, unat len)\<rparr>"
  using assms by (simp add: s_read_def copy_to_user_def Let_def)

lemma s_write_ok:
  assumes "min (sizef (devs st ! private_data filp) - offset) sz = len" "len \<noteq> 0"
    "user_ok ubuf (unat len)"
  shows "s_write st filp ubuf sz offset =
     \<lparr>ret = len, f_pos = offset + len,
      kst = printk (raw_store st (private_data filp) (sint offset) (take (unat len) (the ubuf)))
              (''Device written'' @ [CHR 0x0A]),
      uout = ubuf, xfer = Some (sint offset, unat len)\<rparr>"
  using assms by (simp add: s_write_def copy_from_user_def Let_def)

lemma s_read_fault:
  assumes "min (sizef (devs st ! private_data filp) - offset) sz = len" "len \<noteq> 0"
    "\<not> user_ok ubuf (unat len)"
  shows "s_read st filp ubuf sz offset =
     \<lparr>ret = - EFAULT, f_pos = offset, kst = st, uout = ubuf, xfer = None\<rparr>"
  using assms by (simp add: s_read_def copy_to_user_def Let_def unat_eq_0)

lemma s_write_fault:
  assumes "min (sizef (devs st ! private_data filp) - offset) sz = len" "len \<noteq> 0"
    "\<not> user_ok ubuf (unat len)"
  shows "s_write st filp ubuf sz offset =
     \<lparr>ret = - EFAULT, f_pos = offset, kst = st, uout = ubuf, xfer = None\<rparr>"
  using assms by (simp add: s_write_def copy_from_user_def Let_def unat_eq_0)

lemma s_read_zero:
  assumes "min (sizef (devs st ! private_data filp) - offset) sz = 0"
  shows "s_read st filp ubuf sz offset =
     \<lparr>ret = 0, f_pos = offset, kst = st, uout = ubuf, xfer = None\<rparr>"
  using assms by (simp add: s_read_def Let_def)

lemma s_write_zero:
  assumes "min (sizef (devs st ! private_data filp) - offset) sz = 0"
  shows "s_write st filp ubuf sz offset =
     \<lparr>ret = 0, f_pos = offset, kst = st, uout = ubuf, xfer = None\<rparr>"
  using assms by (simp add: s_write_def Let_def)

text \<open>In range: the facts about the length that the success theorems share.\<close>

lemma in_range_len:
  fixes sizew offset sz :: "64 word"
  assumes lo: "0 \<le> sint offset" and hi: "sint offset < uint sizew" and pos: "0 < sz"
  defines "len \<equiv> min (sizew - offset) sz"
  shows "uint len = effective_length sizew sz offset"
    and "0 < effective_length sizew sz offset"
    and "len \<noteq> 0"
    and "sint offset + effective_length sizew sz offset \<le> uint sizew"
proof -
  show u: "uint len = effective_length sizew sz offset"
    unfolding len_def using lo hi by (simp add: len_in_range)
  have "0 < uint sz" using pos by (simp add: word_less_def)
  then show p: "0 < effective_length sizew sz offset"
    using hi by (simp add: effective_length_def)
  show "len \<noteq> 0" using u p by auto
  have "effective_length sizew sz offset \<le> uint sizew - sint offset"
    by (simp add: effective_length_def)
  then show "sint offset + effective_length sizew sz offset \<le> uint sizew" by simp
qed

text \<open>
  The signed readings of the length and of the advanced offset, when the advanced offset
  is still a value of \<open>loff_t\<close>.
\<close>

lemma in_range_signed:
  fixes sizew offset sz :: "64 word"
  assumes lo: "0 \<le> sint offset" and hi: "sint offset < uint sizew" and pos: "0 < sz"
    and fits: "sint offset + effective_length sizew sz offset < 2 ^ 63"
  defines "len \<equiv> min (sizew - offset) sz"
  shows "sint len = effective_length sizew sz offset"
    and "sint (offset + len) = sint offset + effective_length sizew sz offset"
proof -
  have u: "uint len = effective_length sizew sz offset"
    unfolding len_def by (rule in_range_len(1) [OF lo hi pos])
  have o: "sint offset = uint offset" using lo by (rule sint_nonneg_uint)
  have "uint len < 2 ^ 63" using u fits lo by simp
  then show "sint len = effective_length sizew sz offset" using u by (simp add: sint_small)
  have s: "uint offset + uint len < 2 ^ 63" using fits u o by simp
  then have "uint offset + uint len < 2 ^ LENGTH(64)" by simp
  then have e: "uint (offset + len) = uint offset + uint len"
    by (simp only: uint_add_lem)
  with s have "uint (offset + len) < 2 ^ 63" by simp
  then have "sint (offset + len) = uint (offset + len)" by (rule sint_small)
  then show "sint (offset + len) = sint offset + effective_length sizew sz offset"
    using e u o by simp
qed

text \<open>A \<open>size\<close> within the capacity keeps every in-range advanced offset in \<open>loff_t\<close>.\<close>

lemma cap_fits:
  fixes sizew offset sz :: "64 word"
  assumes cap: "uint sizew \<le> int BUFSIZE"
    and lo: "0 \<le> sint offset" and hi: "sint offset < uint sizew" and pos: "0 < sz"
  shows "sint offset + effective_length sizew sz offset < 2 ^ 63"
  using in_range_len(4) [OF lo hi pos] cap by (simp add: BUFSIZE_def)

lemma fd0_private_data: "private_data fd0 = 0"
  by (simp add: fd0_def s_open_def)

lemma loaded_sizef: "sizef (devs loaded ! 0) = 512"
  by code_simp

lemma loaded_devs_length: "length (devs loaded) = 1"
  by code_simp

section \<open>Raw memory: loads and stores\<close>

lemma upt8: "[0..<8] = [0, 1, 2, 3, 4, 5, 6, 7]"
  by code_simp

lemma byte_split_step:
  fixes w :: "64 word"
  shows "ucast (ucast (drop_bit k w) :: 8 word) OR push_bit 8 (drop_bit (8 + k) w) = drop_bit k w"
proof (rule bit_word_eqI)
  fix n
  assume "n < LENGTH(64)"
  have b: "bit w (k + n) \<Longrightarrow> k + n < 64"
    using bit_imp_le_length [of w "k + n"] by simp
  show "bit (ucast (ucast (drop_bit k w) :: 8 word) OR push_bit 8 (drop_bit (8 + k) w) :: 64 word) n
        = bit (drop_bit k w) n"
  proof (cases "n < 8")
    case True
    then show ?thesis by (simp add: bit_simps)
  next
    case False
    then have "8 + k + (n - 8) = k + n" by simp
    with False b show ?thesis by (auto simp add: bit_simps)
  qed
qed

lemma byte_split_last:
  fixes w :: "64 word"
  shows "ucast (ucast (drop_bit 56 w) :: 8 word) = drop_bit 56 w"
proof (rule bit_word_eqI)
  fix n
  assume "n < LENGTH(64)"
  show "bit (ucast (ucast (drop_bit 56 w) :: 8 word) :: 64 word) n = bit (drop_bit 56 w) n"
  proof (cases "n < 8")
    case True
    then show ?thesis by (simp add: bit_simps)
  next
    case False
    then have "\<not> 56 + n < 64" by simp
    then have "\<not> bit w (56 + n)" using bit_imp_le_length [of w "56 + n"] by auto
    with False show ?thesis by (simp add: bit_simps)
  qed
qed

lemma size_bytes_unfold:
  "size_bytes w = [ucast w, ucast (drop_bit 8 w), ucast (drop_bit 16 w), ucast (drop_bit 24 w),
     ucast (drop_bit 32 w), ucast (drop_bit 40 w), ucast (drop_bit 48 w), ucast (drop_bit 56 w)]"
  by (simp add: size_bytes_def upt8)

lemma bytes_size_unfold:
  "bytes_size [b0, b1, b2, b3, b4, b5, b6, b7] =
     ucast b0 OR push_bit 8 (ucast b1 OR push_bit 8 (ucast b2 OR push_bit 8 (ucast b3 OR
       push_bit 8 (ucast b4 OR push_bit 8 (ucast b5 OR push_bit 8 (ucast b6 OR
         push_bit 8 (ucast b7)))))))"
  by (simp add: bytes_size_def)

lemma bytes_size_bytes: "bytes_size (size_bytes w) = w"
proof -
  have "bytes_size (size_bytes w) = ucast (ucast (drop_bit 0 w) :: 8 word) OR push_bit 8 (drop_bit (8 + 0) w)"
    unfolding size_bytes_unfold bytes_size_unfold
    using byte_split_last [of w] byte_split_step [of 48 w] byte_split_step [of 40 w]
      byte_split_step [of 32 w] byte_split_step [of 24 w] byte_split_step [of 16 w]
      byte_split_step [of 8 w]
    by simp
  also have "\<dots> = drop_bit 0 w" by (rule byte_split_step)
  finally show ?thesis by simp
qed

lemma length_size_bytes: "length (size_bytes w) = 8"
  by (simp add: size_bytes_unfold)

lemma printk_fields:
  "devs (printk st m) = devs st" "nearby (printk st m) = nearby st"
  "major (printk st m) = major st" "klog (printk st m) = klog st @ [m]"
  by (simp_all add: printk_def)

lemma raw_byte_printk: "raw_byte (printk st m) i k = raw_byte st i k"
  by (simp add: raw_byte_def printk_fields Let_def)

lemma raw_load_printk: "raw_load (printk st m) i p n = raw_load st i p n"
  by (simp add: raw_load_def raw_byte_printk)

lemma raw_byte_buffer:
  "0 \<le> k \<Longrightarrow> k < int BUFSIZE \<Longrightarrow> raw_byte st i k = buffer (devs st ! i) ! nat k"
  by (simp add: raw_byte_def)

lemma raw_store_length: "length (devs (raw_store st i p bs)) = length (devs st)"
  by (simp add: raw_store_def Let_def del: upt_rec_numeral)

lemma raw_store_major: "major (raw_store st i p bs) = major st"
  by (simp add: raw_store_def Let_def del: upt_rec_numeral)

lemma raw_store_klog: "klog (raw_store st i p bs) = klog st"
  by (simp add: raw_store_def Let_def del: upt_rec_numeral)

lemma raw_store_dev:
  "i < length (devs st) \<Longrightarrow> devs (raw_store st i p bs) ! i =
     (devs st ! i)\<lparr>buffer := map (\<lambda>k. overlay p bs (int k) (buffer (devs st ! i) ! k)) [0..<BUFSIZE],
        sizef := bytes_size
                  (map (\<lambda>k. overlay p bs (int BUFSIZE + int k) (size_bytes (sizef (devs st ! i)) ! k))
                     [0..<8])\<rparr>"
  by (simp add: raw_store_def Let_def del: upt_rec_numeral)

lemma raw_store_other:
  "j \<noteq> i \<Longrightarrow> devs (raw_store st i p bs) ! j = devs st ! j"
  by (simp add: raw_store_def Let_def del: upt_rec_numeral)

lemma raw_store_buffer_length:
  "i < length (devs st) \<Longrightarrow> length (buffer (devs (raw_store st i p bs) ! i)) = BUFSIZE"
  by (simp add: raw_store_dev)

lemma raw_store_buffer_nth:
  "i < length (devs st) \<Longrightarrow> k < BUFSIZE \<Longrightarrow>
     buffer (devs (raw_store st i p bs) ! i) ! k = overlay p bs (int k) (buffer (devs st ! i) ! k)"
  by (simp add: raw_store_dev)

lemma raw_store_cdev:
  "i < length (devs st) \<Longrightarrow> cdev (devs (raw_store st i p bs) ! i) = cdev (devs st ! i)"
  by (simp add: raw_store_dev)

lemma raw_store_sizef_in_range:
  assumes "i < length (devs st)" "p + int (length bs) \<le> int BUFSIZE"
  shows "sizef (devs (raw_store st i p bs) ! i) = sizef (devs st ! i)"
proof -
  have "map (\<lambda>k. overlay p bs (int BUFSIZE + int k) (size_bytes (sizef (devs st ! i)) ! k)) [0..<8]
        = map (\<lambda>k. size_bytes (sizef (devs st ! i)) ! k) [0..<length (size_bytes (sizef (devs st ! i)))]"
    using assms(2) by (simp add: overlay_def length_size_bytes del: upt_rec_numeral)
  also have "\<dots> = size_bytes (sizef (devs st ! i))" by (rule map_nth)
  finally show ?thesis using assms(1)
    by (simp add: raw_store_dev bytes_size_bytes del: upt_rec_numeral)
qed

lemma raw_store_nearby_in_range:
  assumes "0 \<le> p" "p + int (length bs) \<le> int BUFSIZE"
  shows "nearby (raw_store st i p bs) = nearby st"
proof -
  have "overlay p bs k old = old" if "k < 0 \<or> int BUFSIZE + 8 \<le> k" for k old
    using that assms by (auto simp add: overlay_def)
  then show ?thesis
    by (simp add: raw_store_def Let_def fun_eq_iff del: upt_rec_numeral)
qed

section \<open>The operations, step by step\<close>

lemma user_ok_take: "user_ok u n \<Longrightarrow> length (take n (the u)) = n"
  by (cases u) (simp_all add: user_ok_def)

lemma s_read_frame:
  "devs (kst (s_read st filp ubuf sz offset)) = devs st
   \<and> nearby (kst (s_read st filp ubuf sz offset)) = nearby st
   \<and> major (kst (s_read st filp ubuf sz offset)) = major st"
  by (simp add: s_read_def Let_def printk_fields split: prod.split)

lemma s_open_fields:
  "fst (s_open st inode filp) = 0"
  "fst (snd (s_open st inode filp)) = printk st (''Device opened'' @ [CHR 0x0A])"
  "private_data (snd (snd (s_open st inode filp))) = i_cdev inode"
  by (simp_all add: s_open_def Let_def)

lemma overlay_outside:
  "k < p \<or> p + int (length bs) \<le> k \<Longrightarrow> overlay p bs k old = old"
  by (auto simp add: overlay_def)

lemma overlay_inside:
  "p \<le> k \<Longrightarrow> k < p + int (length bs) \<Longrightarrow> overlay p bs k old = bs ! nat (k - p)"
  by (simp add: overlay_def)

lemma unat_of_nat_small:
  "n \<le> BUFSIZE \<Longrightarrow> unat (of_nat n :: 64 word) = n"
  by (rule of_nat_inverse [OF refl]) (simp add: BUFSIZE_def)

lemma raw_load_after_store:
  assumes idx: "i < length (devs st)" and fit: "length B \<le> BUFSIZE"
  shows "raw_load (raw_store st i 0 B) i 0 (length B) = B"
proof -
  have "raw_byte (raw_store st i 0 B) i (0 + int j) = B ! j" if "j < length B" for j
  proof -
    from that fit have j: "j < BUFSIZE" by simp
    then have "raw_byte (raw_store st i 0 B) i (0 + int j)
                 = buffer (devs (raw_store st i 0 B) ! i) ! j"
      by (simp add: raw_byte_buffer)
    also have "\<dots> = overlay 0 B (int j) (buffer (devs st ! i) ! j)"
      by (rule raw_store_buffer_nth [OF idx j])
    also have "\<dots> = B ! j" using that by (simp add: overlay_inside)
    finally show ?thesis .
  qed
  then have "raw_load (raw_store st i 0 B) i 0 (length B) = map (\<lambda>j. B ! j) [0..<length B]"
    unfolding raw_load_def by (intro map_cong refl) simp
  then show ?thesis by (simp add: map_nth)
qed

lemma literal_bytes_MESSAGE:
  "literal_bytes MESSAGE = [72, 101, 108, 108, 111, 32, 87, 111, 114, 108, 100, 10, 0]"
  by (simp add: literal_bytes_def MESSAGE_def)

lemma init_func_ok:
  "init_func (Some m) st0 =
     (0, printk (init_dev 0 (st0\<lparr>major := m\<rparr>)) (''Module successfuly initialized'' @ [CHR 0x0A]))"
  by (simp add: init_func_def NUM_MINORS_def Let_def)

lemma init_dev_fields:
  assumes "i < length (devs st)"
  shows "buffer (devs (init_dev i st) ! i)
           = literal_bytes MESSAGE @ drop (length (literal_bytes MESSAGE)) (buffer (devs st ! i))"
    and "sizef (devs (init_dev i st) ! i) = of_nat BUFSIZE"
  using assms by (simp_all add: init_dev_def Let_def printk_fields memcpy_def)

lemma raw_load_prefix:
  assumes "n \<le> BUFSIZE" "n \<le> length (buffer (devs st ! i))"
  shows "raw_load st i 0 n = take n (buffer (devs st ! i))"
proof (rule nth_equalityI)
  show "length (raw_load st i 0 n) = length (take n (buffer (devs st ! i)))"
    using assms(2) by (simp add: raw_load_def)
next
  fix j
  assume "j < length (raw_load st i 0 n)"
  then have j: "j < n" by (simp add: raw_load_def)
  with assms(1) have "raw_byte st i (0 + int j) = buffer (devs st ! i) ! j"
    by (simp add: raw_byte_buffer)
  with j show "raw_load st i 0 n ! j = take n (buffer (devs st ! i)) ! j"
    by (simp add: raw_load_def)
qed

section \<open>Facts for offsets beyond the buffer\<close>

lemma loaded_nearby: "nearby loaded = (\<lambda>i k. 0)"
  by (simp add: loaded_def init_func_ok printk_fields init_dev_def Let_def boot_def)

lemma raw_byte_size_field:
  "int BUFSIZE \<le> k \<Longrightarrow> k < int BUFSIZE + 8 \<Longrightarrow>
     raw_byte st i k = size_bytes (sizef (devs st ! i)) ! nat (k - int BUFSIZE)"
  by (simp add: raw_byte_def Let_def)

lemma raw_store_nearby_at:
  "k < 0 \<or> int BUFSIZE + 8 \<le> k \<Longrightarrow>
     nearby (raw_store st i p bs) i k = overlay p bs k (nearby st i k)"
  by (simp add: raw_store_def Let_def)

lemma loaded_len: "min (sizef (devs loaded ! private_data fd0) - offset) sz = min (512 - offset) sz"
  by (simp add: fd0_private_data loaded_sizef)

lemma size_bytes_512: "size_bytes 512 = [0, 2, 0, 0, 0, 0, 0, 0]"
  by code_simp

lemma upt7: "[0..<7] = [0, 1, 2, 3, 4, 5, 6]"
  by code_simp

lemma size_after_513:
  "bytes_size (map (\<lambda>k. overlay 513 (replicate 7 255) (int BUFSIZE + int k) (size_bytes 512 ! k)) [0..<8])
     = 0xFFFFFFFFFFFFFF00"
  by code_simp

lemma size_after_513_one:
  "bytes_size (map (\<lambda>k. overlay 513 [1, 0, 0, 0, 0, 0, 0] (int BUFSIZE + int k) (size_bytes 512 ! k)) [0..<8])
     = 256"
  by code_simp

lemma size_after_510:
  "bytes_size (map (\<lambda>k. overlay 510 [1, 1, 1, 1] (int BUFSIZE + int k)
                         (size_bytes 0xFFFFFFFFFFFFFF00 ! k)) [0..<8])
     = 0xFFFFFFFFFFFF0101"
  by code_simp

lemma shrunk_eq:
  "shrunk = printk (raw_store loaded 0 513 [1, 0, 0, 0, 0, 0, 0]) (''Device written'' @ [CHR 0x0A])"
proof -
  have len: "min (sizef (devs loaded ! private_data fd0) - 513) 7 = (7 :: size_t)"
    by (simp add: loaded_len)
  have nz: "(7 :: size_t) \<noteq> 0" by simp
  have u: "user_ok (Some [1, 0, 0, 0, 0, 0, 0]) (unat (7 :: size_t))" by (simp add: user_ok_def)
  show ?thesis
    unfolding shrunk_def using s_write_ok [OF len nz u] by (simp add: fd0_private_data)
qed

lemma shrunk_facts:
  "length (devs shrunk) = 1" "sizef (devs shrunk ! 0) = 256"
proof -
  have i: "(0 :: nat) < length (devs loaded)" by (simp add: loaded_devs_length)
  show "length (devs shrunk) = 1"
    by (simp add: shrunk_eq printk_fields raw_store_length loaded_devs_length)
  show "sizef (devs shrunk ! 0) = 256"
    by (simp add: shrunk_eq printk_fields raw_store_dev [OF i] loaded_sizef size_after_513_one)
qed

lemma grown_eq:
  "grown = printk (raw_store loaded 0 513 (replicate 7 255)) (''Device written'' @ [CHR 0x0A])"
proof -
  have len: "min (sizef (devs loaded ! private_data fd0) - 513) 7 = (7 :: size_t)"
    by (simp add: loaded_len)
  have nz: "(7 :: size_t) \<noteq> 0" by simp
  have u: "user_ok (Some (replicate 7 255)) (unat (7 :: size_t))" by (simp add: user_ok_def)
  show ?thesis
    unfolding grown_def using s_write_ok [OF len nz u] by (simp add: fd0_private_data)
qed

lemma grown_facts:
  "length (devs grown) = 1" "sizef (devs grown ! 0) = 0xFFFFFFFFFFFFFF00"
proof -
  have i: "(0 :: nat) < length (devs loaded)" by (simp add: loaded_devs_length)
  show "length (devs grown) = 1"
    by (simp add: grown_eq printk_fields raw_store_length loaded_devs_length)
  show "sizef (devs grown ! 0) = 0xFFFFFFFFFFFFFF00"
    by (simp add: grown_eq printk_fields raw_store_dev [OF i] loaded_sizef size_after_513)
qed

lemma xfer_cases:
  fixes st filp ubuf sz offset
  defines "len \<equiv> min (sizef (devs st ! private_data filp) - offset) sz"
  shows "xfer (s_read st filp ubuf sz offset) = None
         \<or> (len \<noteq> 0 \<and> xfer (s_read st filp ubuf sz offset) = Some (sint offset, unat len))"
    and "xfer (s_write st filp ubuf sz offset) = None
         \<or> (len \<noteq> 0 \<and> xfer (s_write st filp ubuf sz offset) = Some (sint offset, unat len))"
proof -
  show "xfer (s_read st filp ubuf sz offset) = None
         \<or> (len \<noteq> 0 \<and> xfer (s_read st filp ubuf sz offset) = Some (sint offset, unat len))"
  proof (cases "len = 0")
    case True
    then show ?thesis using s_read_zero [of st filp offset sz ubuf] by (simp add: len_def)
  next
    case False
    show ?thesis
    proof (cases "user_ok ubuf (unat len)")
      case True
      with False show ?thesis
        using s_read_ok [of st filp offset sz len ubuf] by (simp add: len_def)
    next
      case f: False
      with False show ?thesis
        using s_read_fault [of st filp offset sz len ubuf] by (simp add: len_def)
    qed
  qed
  show "xfer (s_write st filp ubuf sz offset) = None
         \<or> (len \<noteq> 0 \<and> xfer (s_write st filp ubuf sz offset) = Some (sint offset, unat len))"
  proof (cases "len = 0")
    case True
    then show ?thesis using s_write_zero [of st filp offset sz ubuf] by (simp add: len_def)
  next
    case False
    show ?thesis
    proof (cases "user_ok ubuf (unat len)")
      case True
      with False show ?thesis
        using s_write_ok [of st filp offset sz len ubuf] by (simp add: len_def)
    next
      case f: False
      with False show ?thesis
        using s_write_fault [of st filp offset sz len ubuf] by (simp add: len_def)
    qed
  qed
qed

section \<open>Offsets within the buffer, faults, load and open\<close>

text \<open>
  C4. A successful read or write with a positive effective length (offset in
  \<open>[0, size)\<close>, a positive requested length, a user region the copy can use) advances
  the offset by exactly the effective length and returns that same length, both read as
  the signed 64-bit values they are. This holds in every state, whatever \<open>size\<close> is,
  as long as the advanced offset is still a value of \<open>loff_t\<close>, that is below
  \<open>2 ^ 63\<close>: so for every request the kernel passes to the driver, and in particular
  whenever \<open>size\<close> is at most 512.
\<close>

theorem rw_success_advances_offset:
  assumes lo: "0 \<le> sint offset"
    and hi: "sint offset < uint (sizef (devs st ! private_data filp))"
    and pos: "0 < sz"
    and ok: "user_ok ubuf (nat (effective_length (sizef (devs st ! private_data filp)) sz offset))"
    and fits: "sint offset + effective_length (sizef (devs st ! private_data filp)) sz offset
                 < 2 ^ 63"
  shows "0 < effective_length (sizef (devs st ! private_data filp)) sz offset
       \<and> sint (ret (s_read st filp ubuf sz offset))
           = effective_length (sizef (devs st ! private_data filp)) sz offset
       \<and> sint (f_pos (s_read st filp ubuf sz offset))
           = sint offset + effective_length (sizef (devs st ! private_data filp)) sz offset
       \<and> sint (ret (s_write st filp ubuf sz offset))
           = effective_length (sizef (devs st ! private_data filp)) sz offset
       \<and> sint (f_pos (s_write st filp ubuf sz offset))
           = sint offset + effective_length (sizef (devs st ! private_data filp)) sz offset"
proof -
  let ?len = "min (sizef (devs st ! private_data filp) - offset) sz"
  note f = in_range_len [OF lo hi pos]
  note g = in_range_signed [OF lo hi pos fits]
  have "unat ?len = nat (effective_length (sizef (devs st ! private_data filp)) sz offset)"
    by (simp only: unat_eq_nat_uint f(1))
  with ok have u: "user_ok ubuf (unat ?len)" by simp
  have r: "ret (s_read st filp ubuf sz offset) = ?len"
    "f_pos (s_read st filp ubuf sz offset) = offset + ?len"
    using s_read_ok [OF refl f(3) u] by simp_all
  have w: "ret (s_write st filp ubuf sz offset) = ?len"
    "f_pos (s_write st filp ubuf sz offset) = offset + ?len"
    using s_write_ok [OF refl f(3) u] by simp_all
  show ?thesis using f(2) g(1) g(2) by (simp only: r w simp_thms)
qed

text \<open>The theorem at offset 4 with 8 bytes requested, on the loaded module.\<close>

theorem rw_success_advances_offset_witness:
  "0 \<le> sint (4 :: loff_t)
   \<and> sint (4 :: loff_t) < uint (sizef (devs loaded ! private_data fd0))
   \<and> 0 < (8 :: size_t)
   \<and> user_ok (Some (replicate 8 0)) (nat (effective_length (sizef (devs loaded ! private_data fd0)) 8 4))
   \<and> sint (4 :: loff_t) + effective_length (sizef (devs loaded ! private_data fd0)) 8 4 < 2 ^ 63
   \<and> sint (ret (s_read loaded fd0 (Some (replicate 8 0)) 8 4)) = 8
   \<and> sint (f_pos (s_write loaded fd0 (Some (replicate 8 0)) 8 4)) = 12"
proof -
  have e: "effective_length (sizef (devs loaded ! private_data fd0)) 8 4 = 8"
    by (simp add: fd0_private_data loaded_sizef effective_length_def)
  have h1: "sint (4 :: loff_t) + effective_length (sizef (devs loaded ! private_data fd0)) 8 4
              < 2 ^ 63"
    by (simp add: e)
  have h2: "0 \<le> sint (4 :: loff_t)" by simp
  have h3: "sint (4 :: loff_t) < uint (sizef (devs loaded ! private_data fd0))"
    by (simp add: fd0_private_data loaded_sizef)
  have h4: "0 < (8 :: size_t)" by simp
  have h5: "user_ok (Some (replicate 8 0))
              (nat (effective_length (sizef (devs loaded ! private_data fd0)) 8 4))"
    by (simp add: e user_ok_def)
  from rw_success_advances_offset [OF h2 h3 h4 h5 h1] h1 h2 h3 h4 h5 show ?thesis
    by (simp add: e)
qed

text \<open>
  C5. When the user-memory copy of a read or write fails, the call returns \<open>-EFAULT\<close>
  (the negative value \<open>-14\<close>, not a byte count), the offset is not advanced, nothing is
  transferred, and the kernel state, the device's buffer and size included, is what it
  was before the call. This holds for every offset and requested length for which a copy
  is attempted.
\<close>

theorem rw_copy_fault:
  assumes attempted: "min (sizef (devs st ! private_data filp) - offset) sz \<noteq> 0"
    and fails: "\<not> user_ok ubuf (unat (min (sizef (devs st ! private_data filp) - offset) sz))"
  shows "ret (s_read st filp ubuf sz offset) = - EFAULT
       \<and> f_pos (s_read st filp ubuf sz offset) = offset
       \<and> kst (s_read st filp ubuf sz offset) = st
       \<and> xfer (s_read st filp ubuf sz offset) = None
       \<and> ret (s_write st filp ubuf sz offset) = - EFAULT
       \<and> f_pos (s_write st filp ubuf sz offset) = offset
       \<and> kst (s_write st filp ubuf sz offset) = st
       \<and> xfer (s_write st filp ubuf sz offset) = None
       \<and> sint (- EFAULT) = - 14"
  using s_read_fault [OF refl attempted fails] s_write_fault [OF refl attempted fails]
  by (simp add: EFAULT_def)

text \<open>The theorem for a write of 4 bytes from an inaccessible user pointer.\<close>

theorem rw_copy_fault_witness:
  "min (sizef (devs loaded ! private_data fd0) - 0) 4 \<noteq> 0
   \<and> \<not> user_ok None (unat (min (sizef (devs loaded ! private_data fd0) - 0) 4))
   \<and> ret (s_write loaded fd0 None 4 0) = - EFAULT
   \<and> kst (s_write loaded fd0 None 4 0) = loaded"
proof -
  have h1: "min (sizef (devs loaded ! private_data fd0) - 0) 4 \<noteq> 0"
    by (simp add: fd0_private_data loaded_sizef)
  have h2: "\<not> user_ok None (unat (min (sizef (devs loaded ! private_data fd0) - 0) 4))"
    by (simp add: user_ok_def)
  from rw_copy_fault [OF h1 h2] h1 h2 show ?thesis by simp
qed

text \<open>
  C6. After \<open>init_func\<close> has succeeded, bytes 0..11 of the buffer are the ASCII bytes
  of \<open>Hello World\<close> and a newline, byte 12 is the null terminator of the literal (13
  bytes are copied), \<open>size\<close> is 512, and a read of 12 bytes at offset 0 through a
  newly opened handle returns 12 and delivers exactly those 12 bytes. The state before
  the load is any state whose \<open>devs\<close> array has its \<open>NUM_MINORS\<close> elements.
\<close>

theorem load_then_read_greeting:
  fixes st0 :: kstate and inode :: inode and f0 :: file_t and ubuf :: uregion and m :: int
  defines "st \<equiv> snd (init_func (Some m) st0)"
  defines "d \<equiv> devs st ! i_cdev inode"
  defines "r \<equiv> s_read (fst (snd (s_open st inode f0))) (snd (snd (s_open st inode f0))) ubuf 12 0"
  assumes arr: "length (devs st0) = NUM_MINORS"
    and node: "i_cdev inode < NUM_MINORS"
    and ok: "user_ok ubuf 12"
  shows "fst (init_func (Some m) st0) = 0
       \<and> take 13 (buffer d) = [72, 101, 108, 108, 111, 32, 87, 111, 114, 108, 100, 10, 0]
       \<and> take 12 (buffer d) = map (\<lambda>c. of_nat (of_char c)) MESSAGE
       \<and> sizef d = 512
       \<and> fst (s_open st inode f0) = 0
       \<and> ret r = 12
       \<and> f_pos r = 12
       \<and> uout r = Some (map (\<lambda>c. of_nat (of_char c)) MESSAGE @ drop 12 (the ubuf))"
proof -
  have i0: "i_cdev inode = 0" using node by (simp add: NUM_MINORS_def)
  have l0: "0 < length (devs (st0\<lparr>major := m\<rparr>))" using arr by (simp add: NUM_MINORS_def)
  have st: "st = printk (init_dev 0 (st0\<lparr>major := m\<rparr>))
                   (''Module successfuly initialized'' @ [CHR 0x0A])"
    by (simp add: st_def init_func_ok)
  have b: "buffer d = literal_bytes MESSAGE
              @ drop (length (literal_bytes MESSAGE)) (buffer (devs (st0\<lparr>major := m\<rparr>) ! 0))"
    unfolding d_def i0 st printk_fields by (rule init_dev_fields(1) [OF l0])
  have s: "sizef d = 512"
    unfolding d_def i0 st printk_fields using init_dev_fields(2) [OF l0] by (simp add: BUFSIZE_def)
  have t13: "take 13 (buffer d) = [72, 101, 108, 108, 111, 32, 87, 111, 114, 108, 100, 10, 0]"
    by (simp add: b literal_bytes_MESSAGE)
  have m12: "map (\<lambda>c. of_nat (of_char c)) MESSAGE
               = [72, 101, 108, 108, 111, 32, 87, 111, 114, 108, 100, 10 :: byte]"
    by (simp add: MESSAGE_def)
  have t12: "take 12 (buffer d) = map (\<lambda>c. of_nat (of_char c)) MESSAGE"
    by (simp add: b literal_bytes_MESSAGE m12)
  let ?st' = "fst (snd (s_open st inode f0))" and ?h = "snd (snd (s_open st inode f0))"
  have p: "private_data ?h = 0" by (simp add: s_open_fields i0)
  have dv: "devs ?st' ! 0 = d" by (simp add: s_open_fields printk_fields d_def i0)
  have len: "min (sizef (devs ?st' ! private_data ?h) - 0) 12 = (12 :: size_t)"
    by (simp add: p dv s)
  have nz: "(12 :: size_t) \<noteq> 0" by simp
  have u: "user_ok ubuf (unat (12 :: size_t))" using ok by simp
  have r: "r = \<lparr>ret = 12, f_pos = 0 + 12, kst = printk ?st' (''Device read'' @ [CHR 0x0A]),
      uout = Some (raw_load ?st' (private_data ?h) (sint (0 :: loff_t)) (unat (12 :: size_t))
                   @ drop (unat (12 :: size_t)) (the ubuf)),
      xfer = Some (sint (0 :: loff_t), unat (12 :: size_t))\<rparr>"
    unfolding r_def by (rule s_read_ok [OF len nz u])
  have "raw_load ?st' 0 0 12 = take 12 (buffer (devs ?st' ! 0))"
    by (rule raw_load_prefix) (simp_all add: BUFSIZE_def dv b literal_bytes_MESSAGE)
  then have ld: "raw_load ?st' 0 0 12 = map (\<lambda>c. of_nat (of_char c)) MESSAGE"
    by (simp only: dv t12)
  have "uout r = Some (map (\<lambda>c. of_nat (of_char c)) MESSAGE @ drop 12 (the ubuf))"
    by (simp add: r p ld)
  moreover have "ret r = 12" "f_pos r = 12" by (simp_all add: r)
  moreover have "fst (init_func (Some m) st0) = 0" by (simp add: init_func_ok)
  ultimately show ?thesis using t13 t12 s by (simp add: s_open_fields)
qed

text \<open>The theorem on the zeroed globals, with the major number 240.\<close>

theorem load_then_read_greeting_witness:
  "length (devs boot) = NUM_MINORS
   \<and> i_cdev \<lparr>i_cdev = 0\<rparr> < NUM_MINORS
   \<and> user_ok (Some (replicate 12 0)) 12
   \<and> ret (s_read (fst (snd (s_open (snd (init_func (Some 240) boot)) \<lparr>i_cdev = 0\<rparr>
                                  \<lparr>private_data = 0\<rparr>)))
              (snd (snd (s_open (snd (init_func (Some 240) boot)) \<lparr>i_cdev = 0\<rparr>
                                  \<lparr>private_data = 0\<rparr>)))
              (Some (replicate 12 0)) 12 0) = 12"
proof -
  have h1: "length (devs boot) = NUM_MINORS" by (simp add: boot_def)
  have h2: "i_cdev \<lparr>i_cdev = 0\<rparr> < NUM_MINORS" by (simp add: NUM_MINORS_def)
  have h3: "user_ok (Some (replicate 12 0)) 12" by (simp add: user_ok_def)
  from load_then_read_greeting [OF h1 h2 h3, of 240 "\<lparr>private_data = 0\<rparr>"] h1 h2 h3
  show ?thesis by blast
qed

text \<open>
  C9. \<open>s_open\<close> and \<open>s_release\<close> return 0 on every call and leave every device
  (buffer, size, cdev) and the memory around it as they were; \<open>s_open\<close> only stores
  the device pointer in the handle, and both write one line to the kernel log.
\<close>

theorem open_release_leave_device_unchanged:
  "fst (s_open st inode filp) = 0
   \<and> devs (fst (snd (s_open st inode filp))) = devs st
   \<and> nearby (fst (snd (s_open st inode filp))) = nearby st
   \<and> major (fst (snd (s_open st inode filp))) = major st
   \<and> private_data (snd (snd (s_open st inode filp))) = i_cdev inode
   \<and> fst (s_release st inode filp) = 0
   \<and> devs (snd (s_release st inode filp)) = devs st
   \<and> nearby (snd (s_release st inode filp)) = nearby st
   \<and> major (snd (s_release st inode filp)) = major st"
  by (simp add: s_open_fields s_release_def printk_fields)

section \<open>Offsets beyond \<open>size\<close>\<close>

text \<open>
  Both \<open>s_read\<close> and \<open>s_write\<close> compute \<open>data->size - *offset\<close> in the unsigned
  type \<open>size_t\<close>. For an offset greater than \<open>size\<close> the difference wraps around
  to a number just below \<open>2 ^ 64\<close>, \<open>min\<close> then picks the requested length, and the
  test \<open>len <= 0\<close>, which on an unsigned value only catches \<open>len = 0\<close>, lets the call
  through. The theorems of this section evaluate the loaded module at such offsets, and
  in the states that such a write leaves behind.
\<close>

text \<open>
  C1. A read or write whose effective length \<open>min(requested_length, size - offset)\<close>
  is zero or negative is to return 0, transfer nothing and leave the offset unchanged,
  for offsets strictly greater than \<open>size\<close> too. At offset 1000 with 100 bytes
  requested the effective length is \<open>-488\<close>, yet both calls transfer 100 bytes from
  displacement 1000, return 100 and advance the offset to 1100.
\<close>

theorem rw_beyond_size_not_exhausted:
  "effective_length (sizef (devs loaded ! private_data fd0)) 100 1000 = - 488
   \<and> ret (s_read loaded fd0 (Some (replicate 100 0)) 100 1000) = 100
   \<and> f_pos (s_read loaded fd0 (Some (replicate 100 0)) 100 1000) = 1100
   \<and> xfer (s_read loaded fd0 (Some (replicate 100 0)) 100 1000) = Some (1000, 100)
   \<and> ret (s_write loaded fd0 (Some (replicate 100 0)) 100 1000) = 100
   \<and> f_pos (s_write loaded fd0 (Some (replicate 100 0)) 100 1000) = 1100
   \<and> xfer (s_write loaded fd0 (Some (replicate 100 0)) 100 1000) = Some (1000, 100)"
proof -
  have len: "min (sizef (devs loaded ! private_data fd0) - 1000) 100 = (100 :: size_t)"
    by (simp add: loaded_len)
  have nz: "(100 :: size_t) \<noteq> 0" by simp
  have u: "user_ok (Some (replicate 100 0)) (unat (100 :: size_t))" by (simp add: user_ok_def)
  have e: "effective_length (sizef (devs loaded ! private_data fd0)) 100 1000 = - 488"
    by (simp add: fd0_private_data loaded_sizef effective_length_def)
  show ?thesis
    using s_read_ok [OF len nz u] s_write_ok [OF len nz u] e by simp
qed

text \<open>
  C2. Every buffer access of a read or write is to stay within the indices
  \<open>[0, size)\<close>. A read of 7 bytes at offset 513 transfers displacements 513..519,
  which are bytes 1..7 of the \<open>size\<close> field (the value 512 shows as the byte 2), and
  a write of 16 bytes at offset 600 stores to displacements 600..615, behind the struct.
\<close>

theorem rw_access_beyond_buffer:
  "sizef (devs loaded ! private_data fd0) = 512
   \<and> xfer (s_read loaded fd0 (Some (replicate 7 0)) 7 513) = Some (513, 7)
   \<and> uout (s_read loaded fd0 (Some (replicate 7 0)) 7 513) = Some [2, 0, 0, 0, 0, 0, 0]
   \<and> xfer (s_write loaded fd0 (Some (replicate 16 170)) 16 600) = Some (600, 16)
   \<and> nearby loaded 0 600 = 0
   \<and> nearby (kst (s_write loaded fd0 (Some (replicate 16 170)) 16 600)) 0 600 = 170"
proof -
  have lr: "min (sizef (devs loaded ! private_data fd0) - 513) 7 = (7 :: size_t)"
    by (simp add: loaded_len)
  have ur: "user_ok (Some (replicate 7 0)) (unat (7 :: size_t))" by (simp add: user_ok_def)
  have lw: "min (sizef (devs loaded ! private_data fd0) - 600) 16 = (16 :: size_t)"
    by (simp add: loaded_len)
  have uw: "user_ok (Some (replicate 16 170)) (unat (16 :: size_t))" by (simp add: user_ok_def)
  have ld: "raw_load loaded 0 513 7 = [2, 0, 0, 0, 0, 0, 0]"
    by (simp add: raw_load_def upt7 raw_byte_size_field BUFSIZE_def loaded_sizef size_bytes_512)
  have r: "xfer (s_read loaded fd0 (Some (replicate 7 0)) 7 513) = Some (513, 7)"
    "uout (s_read loaded fd0 (Some (replicate 7 0)) 7 513) = Some [2, 0, 0, 0, 0, 0, 0]"
    using s_read_ok [OF lr _ ur] by (simp_all add: fd0_private_data ld)
  have w: "xfer (s_write loaded fd0 (Some (replicate 16 170)) 16 600) = Some (600, 16)"
    "nearby (kst (s_write loaded fd0 (Some (replicate 16 170)) 16 600)) 0 600 = 170"
    using s_write_ok [OF lw _ uw]
    by (simp_all add: fd0_private_data printk_fields raw_store_nearby_at BUFSIZE_def overlay_def)
  show ?thesis using r w by (simp add: fd0_private_data loaded_sizef loaded_nearby)
qed

text \<open>
  C3. The length of a transfer is to be \<open>min(requested_length, size - offset)\<close> in
  general. At offset 520 with 8 bytes requested that number is \<open>-8\<close>, while the
  \<open>len\<close> the code computes is 8, and both calls transfer and return 8 bytes. For
  offsets in \<open>[0, size)\<close> the two agree, as the section on offsets up to \<open>size\<close> shows.
\<close>

theorem transfer_length_beyond_size:
  "effective_length (sizef (devs loaded ! private_data fd0)) 8 520 = - 8
   \<and> min (sizef (devs loaded ! private_data fd0) - 520) 8 = 8
   \<and> xfer (s_read loaded fd0 (Some (replicate 8 0)) 8 520) = Some (520, 8)
   \<and> sint (ret (s_read loaded fd0 (Some (replicate 8 0)) 8 520)) = 8
   \<and> xfer (s_write loaded fd0 (Some (replicate 8 0)) 8 520) = Some (520, 8)
   \<and> sint (ret (s_write loaded fd0 (Some (replicate 8 0)) 8 520)) = 8"
proof -
  have len: "min (sizef (devs loaded ! private_data fd0) - 520) 8 = (8 :: size_t)"
    by (simp add: loaded_len)
  have nz: "(8 :: size_t) \<noteq> 0" by simp
  have u: "user_ok (Some (replicate 8 0)) (unat (8 :: size_t))" by (simp add: user_ok_def)
  have e: "effective_length (sizef (devs loaded ! private_data fd0)) 8 520 = - 8"
    by (simp add: fd0_private_data loaded_sizef effective_length_def)
  show ?thesis
    using s_read_ok [OF len nz u] s_write_ok [OF len nz u] e len by simp
qed

text \<open>
  C8. The \<open>size\<close> field is to keep the value 512 that \<open>init_func\<close> gives it, and
  never to exceed the capacity. A write of the seven bytes \<open>0xFF\<close> at offset 513 is
  accepted, returns 7, and stores them over bytes 1..7 of \<open>size\<close>, which becomes
  \<open>0xFFFFFFFFFFFFFF00\<close>.
\<close>

theorem write_at_513_overwrites_size:
  "sizef (devs loaded ! private_data fd0) = 512
   \<and> ret (s_write loaded fd0 (Some (replicate 7 255)) 7 513) = 7
   \<and> xfer (s_write loaded fd0 (Some (replicate 7 255)) 7 513) = Some (513, 7)
   \<and> sizef (devs (kst (s_write loaded fd0 (Some (replicate 7 255)) 7 513)) ! private_data fd0)
       = 0xFFFFFFFFFFFFFF00
   \<and> int BUFSIZE
       < uint (sizef (devs (kst (s_write loaded fd0 (Some (replicate 7 255)) 7 513)) ! private_data fd0))"
proof -
  have len: "min (sizef (devs loaded ! private_data fd0) - 513) 7 = (7 :: size_t)"
    by (simp add: loaded_len)
  have nz: "(7 :: size_t) \<noteq> 0" by simp
  have u: "user_ok (Some (replicate 7 255)) (unat (7 :: size_t))" by (simp add: user_ok_def)
  have i: "(0 :: nat) < length (devs loaded)" by (simp add: loaded_devs_length)
  have s: "sizef (devs (raw_store loaded 0 513 (replicate 7 255)) ! 0) = 0xFFFFFFFFFFFFFF00"
    by (simp add: raw_store_dev [OF i] loaded_sizef size_after_513)
  show ?thesis
    using s_write_ok [OF len nz u] s
    by (simp add: fd0_private_data loaded_sizef printk_fields BUFSIZE_def)
qed

text \<open>
  C7. Writing a byte sequence \<open>B\<close> of at most 512 bytes at offset 0 and reading as
  many bytes at offset 0 from a new handle is to return \<open>B\<close>. In the state
  \<open>shrunk\<close> the accepted write at offset 513 has left \<open>size\<close> at 256. A write of
  300 bytes \<open>0xAB\<close> at offset 0 then stores and returns only 256, and the read of 300
  bytes through a newly opened handle returns 256 bytes: the user buffer holds 256 bytes
  \<open>0xAB\<close> and its last 44 bytes are untouched.
\<close>

theorem round_trip_after_size_overwrite:
  "sizef (devs shrunk ! private_data fd0) = 256
   \<and> ret (s_write shrunk fd0 (Some (replicate 300 171)) 300 0) = 256
   \<and> ret (s_read
            (fst (snd (s_open (kst (s_write shrunk fd0 (Some (replicate 300 171)) 300 0))
                         \<lparr>i_cdev = 0\<rparr> \<lparr>private_data = 0\<rparr>)))
            (snd (snd (s_open (kst (s_write shrunk fd0 (Some (replicate 300 171)) 300 0))
                         \<lparr>i_cdev = 0\<rparr> \<lparr>private_data = 0\<rparr>)))
            (Some (replicate 300 0)) 300 0) = 256
   \<and> uout (s_read
            (fst (snd (s_open (kst (s_write shrunk fd0 (Some (replicate 300 171)) 300 0))
                         \<lparr>i_cdev = 0\<rparr> \<lparr>private_data = 0\<rparr>)))
            (snd (snd (s_open (kst (s_write shrunk fd0 (Some (replicate 300 171)) 300 0))
                         \<lparr>i_cdev = 0\<rparr> \<lparr>private_data = 0\<rparr>)))
            (Some (replicate 300 0)) 300 0)
       = Some (replicate 256 171 @ replicate 44 0)"
proof -
  let ?w = "s_write shrunk fd0 (Some (replicate 300 171)) 300 0"
  let ?st3 = "fst (snd (s_open (kst ?w) \<lparr>i_cdev = 0\<rparr> \<lparr>private_data = 0\<rparr>))"
  let ?h2 = "snd (snd (s_open (kst ?w) \<lparr>i_cdev = 0\<rparr> \<lparr>private_data = 0\<rparr>))"
  let ?r = "s_read ?st3 ?h2 (Some (replicate 300 0)) 300 0"
  let ?B = "replicate 256 171 :: byte list"
  have i: "(0 :: nat) < length (devs shrunk)" by (simp add: shrunk_facts)
  have lw: "min (sizef (devs shrunk ! private_data fd0) - 0) 300 = (256 :: size_t)"
    by (simp add: fd0_private_data shrunk_facts)
  have nz: "(256 :: size_t) \<noteq> 0" by simp
  have uw: "user_ok (Some (replicate 300 171)) (unat (256 :: size_t))" by (simp add: user_ok_def)
  have w: "ret ?w = 256"
    "kst ?w = printk (raw_store shrunk 0 0 ?B) (''Device written'' @ [CHR 0x0A])"
    using s_write_ok [OF lw nz uw] by (simp_all add: fd0_private_data)
  have p: "private_data ?h2 = 0" by (simp add: s_open_fields)
  have d3: "devs ?st3 = devs (raw_store shrunk 0 0 ?B)"
    by (simp add: s_open_fields printk_fields w)
  have s3: "sizef (devs ?st3 ! 0) = 256"
    using raw_store_sizef_in_range [OF i, of 0 ?B] by (simp add: d3 shrunk_facts BUFSIZE_def)
  have lr: "min (sizef (devs ?st3 ! private_data ?h2) - 0) 300 = (256 :: size_t)"
    by (simp only: p s3) simp
  have ur: "user_ok (Some (replicate 300 0)) (unat (256 :: size_t))" by (simp add: user_ok_def)
  have "raw_load ?st3 0 0 (length ?B) = raw_load (raw_store shrunk 0 0 ?B) 0 0 (length ?B)"
    by (simp add: s_open_fields w raw_load_printk)
  also have "\<dots> = ?B" by (rule raw_load_after_store [OF i]) (simp add: BUFSIZE_def)
  finally have ld: "raw_load ?st3 0 0 256 = ?B" by simp
  have r: "ret ?r = 256" "uout ?r = Some (?B @ replicate 44 0)"
    using s_read_ok [OF lr nz ur] by (simp_all add: p ld)
  show ?thesis using w(1) r by (simp add: fd0_private_data shrunk_facts)
qed

text \<open>
  C10. A successful write at an offset in \<open>[0, size)\<close> with a positive effective
  length is to leave the \<open>size\<close> field unchanged. In the state \<open>grown\<close> the
  accepted write at offset 513 has left \<open>size\<close> at \<open>0xFFFFFFFFFFFFFF00\<close>. A write
  of the four bytes \<open>01\<close> at offset 510 is then within \<open>[0, size)\<close> with the
  effective length 4; it stores to \<open>buffer[510..511]\<close> and to bytes 0..1 of
  \<open>size\<close>, which becomes \<open>0xFFFFFFFFFFFF0101\<close>.
\<close>

theorem in_range_write_after_size_overwrite:
  "sizef (devs grown ! private_data fd0) = 0xFFFFFFFFFFFFFF00
   \<and> 0 \<le> sint (510 :: loff_t)
   \<and> sint (510 :: loff_t) < uint (sizef (devs grown ! private_data fd0))
   \<and> effective_length (sizef (devs grown ! private_data fd0)) 4 510 = 4
   \<and> ret (s_write grown fd0 (Some [1, 1, 1, 1]) 4 510) = 4
   \<and> xfer (s_write grown fd0 (Some [1, 1, 1, 1]) 4 510) = Some (510, 4)
   \<and> sizef (devs (kst (s_write grown fd0 (Some [1, 1, 1, 1]) 4 510)) ! private_data fd0)
       = 0xFFFFFFFFFFFF0101"
proof -
  have i: "(0 :: nat) < length (devs grown)" by (simp add: grown_facts)
  have len: "min (sizef (devs grown ! private_data fd0) - 510) 4 = (4 :: size_t)"
    by (simp add: fd0_private_data grown_facts)
  have nz: "(4 :: size_t) \<noteq> 0" by simp
  have u: "user_ok (Some [1, 1, 1, 1]) (unat (4 :: size_t))" by (simp add: user_ok_def)
  have e: "effective_length (sizef (devs grown ! private_data fd0)) 4 510 = 4"
    by (simp add: fd0_private_data grown_facts effective_length_def)
  have s: "sizef (devs (raw_store grown 0 510 [1, 1, 1, 1]) ! 0) = 0xFFFFFFFFFFFF0101"
    by (simp add: raw_store_dev [OF i] grown_facts size_after_510)
  show ?thesis
    using s_write_ok [OF len nz u] s e
    by (simp add: fd0_private_data grown_facts printk_fields)
qed

section \<open>Offsets up to \<open>size\<close>\<close>

text \<open>
  At offset \<open>size\<close> exactly, a read or write of any length returns 0, transfers
  nothing and changes neither the offset, nor the kernel state, nor the user region.
\<close>

theorem rw_at_size_exhausted:
  "s_read st filp ubuf sz (sizef (devs st ! private_data filp))
     = \<lparr>ret = 0, f_pos = sizef (devs st ! private_data filp), kst = st, uout = ubuf, xfer = None\<rparr>
   \<and> s_write st filp ubuf sz (sizef (devs st ! private_data filp))
     = \<lparr>ret = 0, f_pos = sizef (devs st ! private_data filp), kst = st, uout = ubuf, xfer = None\<rparr>"
proof -
  have z: "min (sizef (devs st ! private_data filp) - sizef (devs st ! private_data filp)) sz = 0"
    by simp
  show ?thesis using s_read_zero [OF z] s_write_zero [OF z] by simp
qed

text \<open>
  For an offset in \<open>[0, size]\<close>, whatever the requested length and the user region,
  a read or write that transfers anything transfers a range that lies within
  \<open>[0, size)\<close>.
\<close>

theorem rw_in_range_access_bounds:
  assumes lo: "0 \<le> sint offset"
    and hi: "sint offset \<le> uint (sizef (devs st ! private_data filp))"
  shows "(case xfer (s_read st filp ubuf sz offset) of
            None \<Rightarrow> True
          | Some (p, n) \<Rightarrow> 0 \<le> p \<and> p + int n \<le> uint (sizef (devs st ! private_data filp)))
       \<and> (case xfer (s_write st filp ubuf sz offset) of
            None \<Rightarrow> True
          | Some (p, n) \<Rightarrow> 0 \<le> p \<and> p + int n \<le> uint (sizef (devs st ! private_data filp)))"
proof -
  let ?len = "min (sizef (devs st ! private_data filp) - offset) sz"
  have "uint ?len = effective_length (sizef (devs st ! private_data filp)) sz offset"
    using lo hi by (rule len_in_range)
  then have "int (unat ?len) \<le> uint (sizef (devs st ! private_data filp)) - sint offset"
    by (simp add: effective_length_def)
  then have b: "0 \<le> sint offset
      \<and> sint offset + int (unat ?len) \<le> uint (sizef (devs st ! private_data filp))"
    using lo by simp
  show ?thesis
    using xfer_cases(1) [of st filp ubuf sz offset] xfer_cases(2) [of st filp ubuf sz offset] b
    by auto
qed

text \<open>The theorem for 100 bytes requested at offset 500 of the loaded module.\<close>

theorem rw_in_range_access_bounds_witness:
  "0 \<le> sint (500 :: loff_t)
   \<and> sint (500 :: loff_t) \<le> uint (sizef (devs loaded ! private_data fd0))
   \<and> (case xfer (s_read loaded fd0 (Some (replicate 100 0)) 100 500) of
          None \<Rightarrow> True
        | Some (p, n) \<Rightarrow> 0 \<le> p \<and> p + int n \<le> uint (sizef (devs loaded ! private_data fd0)))"
proof -
  have h1: "0 \<le> sint (500 :: loff_t)" by simp
  have h2: "sint (500 :: loff_t) \<le> uint (sizef (devs loaded ! private_data fd0))"
    by (simp add: fd0_private_data loaded_sizef)
  from rw_in_range_access_bounds [OF h1 h2, of "Some (replicate 100 0)" 100] h1 h2
  show ?thesis by blast
qed

text \<open>
  For an offset in \<open>[0, size)\<close>, a positive requested length and a usable user
  region, the range transferred starts at the offset and its length is the effective
  length of the specification; when offset plus requested length exceeds \<open>size\<close>,
  that is \<open>size - offset\<close>.
\<close>

theorem rw_in_range_transfer_length:
  assumes lo: "0 \<le> sint offset"
    and hi: "sint offset < uint (sizef (devs st ! private_data filp))"
    and pos: "0 < sz"
    and ok: "user_ok ubuf (nat (effective_length (sizef (devs st ! private_data filp)) sz offset))"
  shows "xfer (s_read st filp ubuf sz offset)
           = Some (sint offset, nat (effective_length (sizef (devs st ! private_data filp)) sz offset))
       \<and> xfer (s_write st filp ubuf sz offset)
           = Some (sint offset, nat (effective_length (sizef (devs st ! private_data filp)) sz offset))
       \<and> effective_length (sizef (devs st ! private_data filp)) sz offset
           = (if uint (sizef (devs st ! private_data filp)) < sint offset + uint sz
              then uint (sizef (devs st ! private_data filp)) - sint offset else uint sz)"
proof -
  let ?len = "min (sizef (devs st ! private_data filp) - offset) sz"
  note f = in_range_len [OF lo hi pos]
  have n: "unat ?len = nat (effective_length (sizef (devs st ! private_data filp)) sz offset)"
    by (simp only: unat_eq_nat_uint f(1))
  with ok have u: "user_ok ubuf (unat ?len)" by simp
  have "xfer (s_read st filp ubuf sz offset) = Some (sint offset, unat ?len)"
    "xfer (s_write st filp ubuf sz offset) = Some (sint offset, unat ?len)"
    using s_read_ok [OF refl f(3) u] s_write_ok [OF refl f(3) u] by simp_all
  then show ?thesis by (auto simp add: n effective_length_def)
qed

text \<open>The theorem for 100 bytes requested at offset 500: 12 bytes are transferred.\<close>

theorem rw_in_range_transfer_length_witness:
  "0 \<le> sint (500 :: loff_t)
   \<and> sint (500 :: loff_t) < uint (sizef (devs loaded ! private_data fd0))
   \<and> 0 < (100 :: size_t)
   \<and> user_ok (Some (replicate 100 0))
        (nat (effective_length (sizef (devs loaded ! private_data fd0)) 100 500))
   \<and> xfer (s_read loaded fd0 (Some (replicate 100 0)) 100 500) = Some (500, 12)"
proof -
  have e: "effective_length (sizef (devs loaded ! private_data fd0)) 100 500 = 12"
    by (simp add: fd0_private_data loaded_sizef effective_length_def)
  have h2: "0 \<le> sint (500 :: loff_t)" by simp
  have h3: "sint (500 :: loff_t) < uint (sizef (devs loaded ! private_data fd0))"
    by (simp add: fd0_private_data loaded_sizef)
  have h4: "0 < (100 :: size_t)" by simp
  have h5: "user_ok (Some (replicate 100 0))
              (nat (effective_length (sizef (devs loaded ! private_data fd0)) 100 500))"
    by (simp add: e user_ok_def)
  from rw_in_range_transfer_length [OF h2 h3 h4 h5] h2 h3 h4 h5 show ?thesis
    by (simp add: e)
qed

section \<open>While \<open>size\<close> is intact\<close>

text \<open>
  On a device whose \<open>size\<close> is 512, as \<open>init_func\<close> leaves it: writing a byte
  sequence \<open>B\<close> with \<open>0 < length B \<le> 512\<close> at offset 0 and then reading
  \<open>length B\<close> bytes at offset 0 returns exactly \<open>B\<close>. The read goes through a handle
  that \<open>s_open\<close> makes afterwards from any inode of the same device and any file
  structure, so the bytes are visible to every handle of the device.
\<close>

theorem write_then_read_round_trip:
  fixes B :: "byte list" and st :: kstate and h1 f0 :: file_t and inode :: inode
    and u2 :: uregion
  defines "n \<equiv> (of_nat (length B) :: size_t)"
  defines "w \<equiv> s_write st h1 (Some B) n 0"
  defines "st2 \<equiv> fst (snd (s_open (kst w) inode f0))"
  defines "h2 \<equiv> snd (snd (s_open (kst w) inode f0))"
  defines "r \<equiv> s_read st2 h2 u2 n 0"
  assumes idx: "private_data h1 < length (devs st)"
    and full: "sizef (devs st ! private_data h1) = of_nat BUFSIZE"
    and ne: "0 < length B"
    and fit: "length B \<le> BUFSIZE"
    and same: "i_cdev inode = private_data h1"
    and ok: "user_ok u2 (length B)"
  shows "sint (ret w) = int (length B)
       \<and> fst (s_open (kst w) inode f0) = 0
       \<and> sint (ret r) = int (length B)
       \<and> uout r = Some (B @ drop (length B) (the u2))"
proof -
  let ?i = "private_data h1"
  have un: "unat n = length B" unfolding n_def using fit by (rule unat_of_nat_small)
  have cap: "unat (of_nat BUFSIZE :: size_t) = BUFSIZE" by (rule unat_of_nat_small) simp
  have "n \<le> of_nat BUFSIZE" using fit by (simp add: word_le_nat_alt un cap)
  then have len: "min (of_nat BUFSIZE - 0) n = n" by (simp add: min_def)
  have nz: "n \<noteq> 0" using un ne by auto
  have sn: "sint n = int (length B)"
  proof -
    have "uint n = int (unat n)" by simp
    then have "uint n = int (length B)" by (simp only: un)
    moreover from this fit have "uint n < 2 ^ 63" by (simp add: BUFSIZE_def)
    ultimately show ?thesis by (simp add: sint_small)
  qed
  have u1: "user_ok (Some B) (unat n)" by (simp add: user_ok_def un)
  have lw: "min (sizef (devs st ! ?i) - 0) n = n" using len full by simp
  have w: "w = \<lparr>ret = n, f_pos = 0 + n,
      kst = printk (raw_store st ?i (sint (0 :: loff_t)) (take (unat n) (the (Some B))))
              (''Device written'' @ [CHR 0x0A]),
      uout = Some B, xfer = Some (sint (0 :: loff_t), unat n)\<rparr>"
    unfolding w_def by (rule s_write_ok [OF lw nz u1])
  have k: "kst w = printk (raw_store st ?i 0 B) (''Device written'' @ [CHR 0x0A])"
    by (simp add: w un)
  have p: "private_data h2 = ?i" by (simp add: h2_def s_open_fields same)
  have d2: "devs st2 = devs (raw_store st ?i 0 B)"
    by (simp add: st2_def s_open_fields printk_fields k)
  have s2: "sizef (devs st2 ! ?i) = of_nat BUFSIZE"
    using raw_store_sizef_in_range [OF idx, of 0 B] fit full by (simp add: d2)
  have lr: "min (sizef (devs st2 ! private_data h2) - 0) n = n" using len s2 p by simp
  have u2': "user_ok u2 (unat n)" using ok un by simp
  have r: "r = \<lparr>ret = n, f_pos = 0 + n, kst = printk st2 (''Device read'' @ [CHR 0x0A]),
      uout = Some (raw_load st2 (private_data h2) (sint (0 :: loff_t)) (unat n)
                   @ drop (unat n) (the u2)),
      xfer = Some (sint (0 :: loff_t), unat n)\<rparr>"
    unfolding r_def by (rule s_read_ok [OF lr nz u2'])
  have "raw_load st2 ?i 0 (length B) = raw_load (raw_store st ?i 0 B) ?i 0 (length B)"
    by (simp add: st2_def s_open_fields k raw_load_printk)
  also have "\<dots> = B" by (rule raw_load_after_store [OF idx fit])
  finally have ld: "raw_load st2 ?i 0 (length B) = B" .
  have "uout r = Some (B @ drop (length B) (the u2))" by (simp add: r un p ld)
  moreover have "sint (ret w) = int (length B)" by (simp add: w sn)
  moreover have "sint (ret r) = int (length B)" by (simp add: r sn)
  ultimately show ?thesis by (simp add: s_open_fields)
qed

text \<open>The theorem for the three bytes 1, 2, 3 on the loaded module.\<close>

theorem write_then_read_round_trip_witness:
  "private_data fd0 < length (devs loaded)
   \<and> sizef (devs loaded ! private_data fd0) = of_nat BUFSIZE
   \<and> 0 < length [1, 2, 3 :: byte]
   \<and> length [1, 2, 3 :: byte] \<le> BUFSIZE
   \<and> i_cdev \<lparr>i_cdev = 0\<rparr> = private_data fd0
   \<and> user_ok (Some (replicate 3 0)) (length [1, 2, 3 :: byte])
   \<and> uout (s_read
          (fst (snd (s_open (kst (s_write loaded fd0 (Some [1, 2, 3]) (of_nat (length [1, 2, 3 :: byte])) 0))
                       \<lparr>i_cdev = 0\<rparr> \<lparr>private_data = 7\<rparr>)))
          (snd (snd (s_open (kst (s_write loaded fd0 (Some [1, 2, 3]) (of_nat (length [1, 2, 3 :: byte])) 0))
                       \<lparr>i_cdev = 0\<rparr> \<lparr>private_data = 7\<rparr>)))
          (Some (replicate 3 0)) (of_nat (length [1, 2, 3 :: byte])) 0)
       = Some ([1, 2, 3] @ drop (length [1, 2, 3 :: byte]) (the (Some (replicate 3 0))))"
proof -
  have h1: "private_data fd0 < length (devs loaded)"
    by (simp add: fd0_private_data loaded_devs_length)
  have h2: "sizef (devs loaded ! private_data fd0) = of_nat BUFSIZE"
    by (simp add: fd0_private_data loaded_sizef BUFSIZE_def)
  have h3: "0 < length [1, 2, 3 :: byte]" by simp
  have h4: "length [1, 2, 3 :: byte] \<le> BUFSIZE" by (simp add: BUFSIZE_def)
  have h5: "i_cdev \<lparr>i_cdev = 0\<rparr> = private_data fd0" by (simp add: fd0_private_data)
  have h6: "user_ok (Some (replicate 3 0)) (length [1, 2, 3 :: byte])" by (simp add: user_ok_def)
  from write_then_read_round_trip [OF h1 h2 h3 h4 h5 h6, of "\<lparr>private_data = 7\<rparr>"]
    h1 h2 h3 h4 h5 h6
  show ?thesis by blast
qed

text \<open>
  On a device whose \<open>size\<close> is at most 512: a successful write at an offset in
  \<open>[0, size)\<close> with a positive effective length transfers exactly the range that
  starts at the offset and has the effective length; every buffer byte at an index
  \<open>k\<close> outside that range keeps its value, and the \<open>size\<close> field (as the
  \<open>cdev\<close> and the length of the buffer) is unchanged. A read, successful or not,
  changes no device at all, whatever \<open>size\<close> is.
\<close>

theorem write_frame:
  assumes idx: "private_data filp < length (devs st)"
    and cap: "uint (sizef (devs st ! private_data filp)) \<le> int BUFSIZE"
    and lo: "0 \<le> sint offset"
    and hi: "sint offset < uint (sizef (devs st ! private_data filp))"
    and pos: "0 < sz"
    and ok: "user_ok ubuf (nat (effective_length (sizef (devs st ! private_data filp)) sz offset))"
    and k: "k < BUFSIZE"
    and out: "int k < sint offset
              \<or> sint offset + effective_length (sizef (devs st ! private_data filp)) sz offset \<le> int k"
  shows "xfer (s_write st filp ubuf sz offset)
           = Some (sint offset, nat (effective_length (sizef (devs st ! private_data filp)) sz offset))
       \<and> buffer (devs (kst (s_write st filp ubuf sz offset)) ! private_data filp) ! k
           = buffer (devs st ! private_data filp) ! k
       \<and> sizef (devs (kst (s_write st filp ubuf sz offset)) ! private_data filp)
           = sizef (devs st ! private_data filp)
       \<and> cdev (devs (kst (s_write st filp ubuf sz offset)) ! private_data filp)
           = cdev (devs st ! private_data filp)
       \<and> length (buffer (devs (kst (s_write st filp ubuf sz offset)) ! private_data filp)) = BUFSIZE
       \<and> devs (kst (s_read rst rfilp rubuf rsz roffset)) = devs rst"
proof -
  let ?i = "private_data filp"
  let ?len = "min (sizef (devs st ! ?i) - offset) sz"
  let ?n = "effective_length (sizef (devs st ! ?i)) sz offset"
  let ?bs = "take (unat ?len) (the ubuf)"
  note f = in_range_len [OF lo hi pos]
  have n: "unat ?len = nat ?n" by (simp only: unat_eq_nat_uint f(1))
  with ok have u: "user_ok ubuf (unat ?len)" by simp
  have l: "int (length ?bs) = ?n" using user_ok_take [OF u] n f(2) by simp
  have w: "s_write st filp ubuf sz offset =
     \<lparr>ret = ?len, f_pos = offset + ?len,
      kst = printk (raw_store st ?i (sint offset) ?bs) (''Device written'' @ [CHR 0x0A]),
      uout = ubuf, xfer = Some (sint offset, unat ?len)\<rparr>"
    by (rule s_write_ok [OF refl f(3) u])
  have fit: "sint offset + int (length ?bs) \<le> int BUFSIZE" using f(4) cap l by simp
  have x: "xfer (s_write st filp ubuf sz offset) = Some (sint offset, nat ?n)"
    by (simp add: w n)
  have b: "buffer (devs (kst (s_write st filp ubuf sz offset)) ! ?i) ! k = buffer (devs st ! ?i) ! k"
    using out l by (simp add: w printk_fields raw_store_buffer_nth [OF idx k] overlay_outside)
  have s: "sizef (devs (kst (s_write st filp ubuf sz offset)) ! ?i) = sizef (devs st ! ?i)"
    by (simp add: w printk_fields raw_store_sizef_in_range [OF idx fit])
  have c: "cdev (devs (kst (s_write st filp ubuf sz offset)) ! ?i) = cdev (devs st ! ?i)"
    by (simp add: w printk_fields raw_store_cdev [OF idx])
  have g: "length (buffer (devs (kst (s_write st filp ubuf sz offset)) ! ?i)) = BUFSIZE"
    by (simp add: w printk_fields raw_store_buffer_length [OF idx])
  show ?thesis using x b s c g s_read_frame [of rst rfilp rubuf rsz roffset] by blast
qed

text \<open>The theorem for 8 bytes written at offset 4, looking at byte 20.\<close>

theorem write_frame_witness:
  "private_data fd0 < length (devs loaded)
   \<and> uint (sizef (devs loaded ! private_data fd0)) \<le> int BUFSIZE
   \<and> 0 \<le> sint (4 :: loff_t)
   \<and> sint (4 :: loff_t) < uint (sizef (devs loaded ! private_data fd0))
   \<and> 0 < (8 :: size_t)
   \<and> user_ok (Some (replicate 8 170))
        (nat (effective_length (sizef (devs loaded ! private_data fd0)) 8 4))
   \<and> (20 :: nat) < BUFSIZE
   \<and> (int 20 < sint (4 :: loff_t)
        \<or> sint (4 :: loff_t) + effective_length (sizef (devs loaded ! private_data fd0)) 8 4 \<le> int 20)
   \<and> buffer (devs (kst (s_write loaded fd0 (Some (replicate 8 170)) 8 4)) ! private_data fd0) ! 20
       = buffer (devs loaded ! private_data fd0) ! 20
   \<and> sizef (devs (kst (s_write loaded fd0 (Some (replicate 8 170)) 8 4)) ! private_data fd0)
       = sizef (devs loaded ! private_data fd0)"
proof -
  have e: "effective_length (sizef (devs loaded ! private_data fd0)) 8 4 = 8"
    by (simp add: fd0_private_data loaded_sizef effective_length_def)
  have h0: "private_data fd0 < length (devs loaded)"
    by (simp add: fd0_private_data loaded_devs_length)
  have h1: "uint (sizef (devs loaded ! private_data fd0)) \<le> int BUFSIZE"
    by (simp add: fd0_private_data loaded_sizef BUFSIZE_def)
  have h2: "0 \<le> sint (4 :: loff_t)" by simp
  have h3: "sint (4 :: loff_t) < uint (sizef (devs loaded ! private_data fd0))"
    by (simp add: fd0_private_data loaded_sizef)
  have h4: "0 < (8 :: size_t)" by simp
  have h5: "user_ok (Some (replicate 8 170))
              (nat (effective_length (sizef (devs loaded ! private_data fd0)) 8 4))"
    by (simp add: e user_ok_def)
  have h6: "(20 :: nat) < BUFSIZE" by (simp add: BUFSIZE_def)
  have h7: "int 20 < sint (4 :: loff_t)
        \<or> sint (4 :: loff_t) + effective_length (sizef (devs loaded ! private_data fd0)) 8 4 \<le> int 20"
    by (simp add: e)
  from write_frame [OF h0 h1 h2 h3 h4 h5 h6 h7] h0 h1 h2 h3 h4 h5 h6 h7 show ?thesis
    by blast
qed

end
